theory Spec2Isabelle
  imports Main "HOL-Library.Word"
begin

section \<open>til::small\_vector: a shallow embedding\<close>

text \<open>
  The class template \<^verbatim>\<open>til::small_vector<T, N>\<close> of \<^verbatim>\<open>src/inc/til/small_vector.h\<close>.
  The template parameter \<open>N\<close> and \<^verbatim>\<open>sizeof(T)\<close> (written \<open>szT\<close>) are arguments of
  the functions that use them. \<^verbatim>\<open>size_t\<close> is the unsigned 64-bit integer of the 64-bit
  targets: \<open>+\<close>, \<open>-\<close> and \<open>*\<close> wrap around, \<open><\<close> compares unsigned.
\<close>

type_synonym size_t = "64 word"

subsection \<open>Memory\<close>

text \<open>
  A pointer value of type \<^verbatim>\<open>T*\<close> held by a container is null, the address
  \<^verbatim>\<open>&_buffer[0]\<close> of the container's own inline buffer, or the address that a call of
  \<^verbatim>\<open>std::malloc\<close> returned. A block of raw storage is a list of slots; a slot holds a
  live object (\<open>Some x\<close>) or none (\<open>None\<close>: never constructed, or destroyed).
\<close>

datatype ptr = Null | InlineBuf | HeapPtr nat

type_synonym 'a block = "'a option list"

text \<open>
  The members \<^verbatim>\<open>_data\<close>, \<^verbatim>\<open>_capacity\<close>, \<^verbatim>\<open>_size\<close> and \<^verbatim>\<open>_buffer\<close> of the class, in the
  order of their declaration. The accessors \<^verbatim>\<open>data()\<close>, \<^verbatim>\<open>capacity()\<close> and
  \<^verbatim>\<open>size()\<close> return the first three.
\<close>

record 'a small_vector =
  sv_data :: ptr
  sv_capacity :: size_t
  sv_size :: size_t
  sv_buffer :: "'a block"

text \<open>
  The C heap: the live blocks, the address the next successful \<^verbatim>\<open>malloc\<close> returns, and
  the outcomes of the coming \<^verbatim>\<open>malloc\<close> calls (\<open>False\<close>: the call returns null). When
  the list of outcomes is used up, \<^verbatim>\<open>malloc\<close> succeeds.
\<close>

record 'a machine =
  heap :: "nat \<Rightarrow> 'a block option"
  brk :: nat
  script :: "bool list"

type_synonym 'a st = "'a machine \<times> 'a small_vector"

text \<open>
  The exceptions of \<^verbatim>\<open>_throw_alloc\<close>, \<^verbatim>\<open>_throw_too_long\<close> and
  \<^verbatim>\<open>_throw_invalid_subscript\<close>. A call returns a value and the state, throws with
  the state it had reached, or has undefined behaviour (a storage access outside a live
  block, \<^verbatim>\<open>free\<close> of a pointer that \<^verbatim>\<open>malloc\<close> did not return).
\<close>

datatype exn = Bad_alloc | Length_error | Out_of_range

datatype ('r, 's) result = Return 'r 's | Throw exn 's | Undefined

fun and_then :: "('r, 's) result \<Rightarrow> ('r \<Rightarrow> 's \<Rightarrow> ('q, 's) result) \<Rightarrow> ('q, 's) result" where
  "and_then (Return r s) f = f r s"
| "and_then (Throw e s) f = Throw e s"
| "and_then Undefined f = Undefined"

fun lift :: "'s option \<Rightarrow> (unit, 's) result" where
  "lift None = Undefined"
| "lift (Some s) = Return () s"

text \<open>\<^verbatim>\<open>std::malloc(bytes)\<close> for an array of \<open>T\<close>: null, or a new block of raw slots.\<close>

definition malloc :: "size_t \<Rightarrow> size_t \<Rightarrow> 'a machine \<Rightarrow> ptr \<times> 'a machine" where
  "malloc bytes szT m =
     (case script m of
        False # rest \<Rightarrow> (Null, m\<lparr>script := rest\<rparr>)
      | _ \<Rightarrow> (HeapPtr (brk m),
               m\<lparr>heap := (heap m)(brk m \<mapsto> replicate (unat bytes div unat szT) None),
                 brk := Suc (brk m),
                 script := tl (script m)\<rparr>))"

text \<open>\<^verbatim>\<open>std::free(p)\<close>: nothing for null, undefined unless \<open>p\<close> is a live heap block.\<close>

fun free :: "ptr \<Rightarrow> 'a machine \<Rightarrow> 'a machine option" where
  "free Null m = Some m"
| "free InlineBuf m = None"
| "free (HeapPtr a) m =
     (case heap m a of None \<Rightarrow> None | Some b \<Rightarrow> Some (m\<lparr>heap := (heap m)(a := None)\<rparr>))"

text \<open>The block a pointer of the container \<open>v\<close> points to, and its replacement.\<close>

fun block_at :: "'a st \<Rightarrow> ptr \<Rightarrow> 'a block option" where
  "block_at (m, v) Null = None"
| "block_at (m, v) InlineBuf = Some (sv_buffer v)"
| "block_at (m, v) (HeapPtr a) = heap m a"

fun store_block :: "ptr \<Rightarrow> 'a block \<Rightarrow> 'a st \<Rightarrow> 'a st" where
  "store_block Null b (m, v) = (m, v)"
| "store_block InlineBuf b (m, v) = (m, v\<lparr>sv_buffer := b\<rparr>)"
| "store_block (HeapPtr a) b (m, v) = (m\<lparr>heap := (heap m)(a \<mapsto> b)\<rparr>, v)"

text \<open>
  Writing the slots \<open>xs\<close> at \<open>p + i\<close>: undefined when the range leaves the live block.
\<close>

definition write_slots :: "ptr \<Rightarrow> nat \<Rightarrow> 'a block \<Rightarrow> 'a st \<Rightarrow> 'a st option" where
  "write_slots p i xs s =
     (case block_at s p of
        None \<Rightarrow> None
      | Some b \<Rightarrow>
          if i + length xs \<le> length b
          then Some (store_block p (take i b @ xs @ drop (i + length xs) b) s)
          else None)"

text \<open>Reading the \<open>n\<close> slots at \<open>p + i\<close>.\<close>

definition read_slots :: "ptr \<Rightarrow> nat \<Rightarrow> nat \<Rightarrow> 'a st \<Rightarrow> 'a block option" where
  "read_slots p i n s =
     (case block_at s p of
        None \<Rightarrow> None
      | Some b \<Rightarrow> if i + n \<le> length b then Some (take n (drop i b)) else None)"

text \<open>
  The algorithms of \<^verbatim>\<open><memory>\<close>, with \<open>first = p + i\<close>.
  \<^verbatim>\<open>std::uninitialized_move_n(src, n, dst)\<close> constructs \<open>n\<close> objects at \<open>dst\<close> from those
  at \<open>src\<close>; \<^verbatim>\<open>std::destroy_n\<close> ends the lifetime of \<open>n\<close> objects;
  \<^verbatim>\<open>std::uninitialized_fill_n\<close> and \<^verbatim>\<open>std::uninitialized_value_construct_n\<close> construct
  \<open>n\<close> objects from a value; placement \<^verbatim>\<open>new (p + i) T(value)\<close> constructs one.
\<close>

definition uninitialized_move_n :: "ptr \<Rightarrow> nat \<Rightarrow> ptr \<Rightarrow> 'a st \<Rightarrow> 'a st option" where
  "uninitialized_move_n src n dst s =
     (case read_slots src 0 n s of
        None \<Rightarrow> None
      | Some xs \<Rightarrow> write_slots dst 0 xs s)"

definition destroy_n :: "ptr \<Rightarrow> nat \<Rightarrow> nat \<Rightarrow> 'a st \<Rightarrow> 'a st option" where
  "destroy_n p i n s = write_slots p i (replicate n None) s"

definition uninitialized_fill_n :: "ptr \<Rightarrow> nat \<Rightarrow> nat \<Rightarrow> 'a \<Rightarrow> 'a st \<Rightarrow> 'a st option" where
  "uninitialized_fill_n p i n x s = write_slots p i (replicate n (Some x)) s"

definition placement_new :: "ptr \<Rightarrow> nat \<Rightarrow> 'a \<Rightarrow> 'a st \<Rightarrow> 'a st option" where
  "placement_new p i x s = write_slots p i [Some x] s"

subsection \<open>Construction and accessors\<close>

text \<open>
  \<^verbatim>\<open>small_vector()\<close>: \<^verbatim>\<open>_data{ &_buffer[0] }\<close>, and the default member initialisers
  \<^verbatim>\<open>_capacity = N\<close>, \<^verbatim>\<open>_size = 0\<close>; the \<open>N\<close> slots of the buffer hold no object.
\<close>

definition small_vector_ctor :: "size_t \<Rightarrow> 'a small_vector" where
  "small_vector_ctor N =
     \<lparr>sv_data = InlineBuf, sv_capacity = N, sv_size = 0, sv_buffer = replicate (unat N) None\<rparr>"

definition max_size :: "size_t \<Rightarrow> size_t" where
  "max_size szT = (- 1) div szT"

text \<open>
  \<^verbatim>\<open>constexpr size_type empty() const noexcept { return !_data; }\<close>: the \<^verbatim>\<open>bool\<close> is
  converted to \<^verbatim>\<open>size_type\<close>, 1 for \<^verbatim>\<open>true\<close>.
\<close>

definition empty :: "'a small_vector \<Rightarrow> size_t" where
  "empty v = (if sv_data v = Null then 1 else 0)"

text \<open>
  The slot \<^verbatim>\<open>_data[i]\<close> and the range \<^verbatim>\<open>[begin(), end())\<close>, that is
  \<^verbatim>\<open>[_data, _data + _size)\<close>, as the list of its slots.
\<close>

definition slot :: "'a st \<Rightarrow> nat \<Rightarrow> 'a option" where
  "slot s i =
     (case block_at s (sv_data (snd s)) of
        None \<Rightarrow> None
      | Some b \<Rightarrow> if i < length b then b ! i else None)"

definition elements :: "'a st \<Rightarrow> 'a option list" where
  "elements s = map (slot s) [0 ..< unat (sv_size (snd s))]"

text \<open>
  \<^verbatim>\<open>operator==\<close>: \<^verbatim>\<open>std::equal(begin(), end(), other.begin(), other.end())\<close>, which is
  true when both ranges have the same length and equal elements.
\<close>

definition op_eq :: "'a machine \<Rightarrow> 'a small_vector \<Rightarrow> 'a small_vector \<Rightarrow> bool" where
  "op_eq m v other = (elements (m, v) = elements (m, other))"

text \<open>\<^verbatim>\<open>at(off)\<close>: the reference \<^verbatim>\<open>_data[off]\<close> is returned as the slot it denotes.\<close>

definition at :: "size_t \<Rightarrow> 'a st \<Rightarrow> ('a option, 'a st) result" where
  "at off s =
     (if off \<ge> sv_size (snd s) then Throw Out_of_range s
      else Return (slot s (unat off)) s)"

subsection \<open>Growth and shrinking\<close>

text \<open>\<^verbatim>\<open>_grow(add)\<close>.\<close>

fun grow :: "size_t \<Rightarrow> size_t \<Rightarrow> size_t \<Rightarrow> 'a st \<Rightarrow> (unit, 'a st) result" where
  "grow N szT add (m, v) =
     (let cap = sv_capacity v;
          newCap = cap + max add (cap div 2)
      in if newCap < cap \<or> newCap > max_size szT then Throw Length_error (m, v)
         else
           (case malloc (newCap * szT) szT m of
              (Null, m1) \<Rightarrow> Throw Bad_alloc (m1, v)
            | (data, m1) \<Rightarrow>
                and_then (lift (uninitialized_move_n (sv_data v) (unat (sv_size v)) data (m1, v)))
                  (\<lambda>_ (m2, v2).
                     and_then (if sv_capacity v2 \<noteq> N
                               then lift (map_option (\<lambda>m3. (m3, v2)) (free (sv_data v2) m2))
                               else Return () (m2, v2))
                       (\<lambda>_ (m3, v3).
                          Return () (m3, v3\<lparr>sv_data := data, sv_capacity := newCap\<rparr>)))))"

text \<open>\<^verbatim>\<open>shrink_to_fit()\<close>.\<close>

fun shrink_to_fit :: "size_t \<Rightarrow> size_t \<Rightarrow> 'a st \<Rightarrow> (unit, 'a st) result" where
  "shrink_to_fit N szT (m, v) =
     (if sv_capacity v = N \<or> sv_size v = sv_capacity v then Return () (m, v)
      else
        and_then
          (if sv_size v > N
           then (case malloc (sv_size v * szT) szT m of
                   (Null, m1) \<Rightarrow> Throw Bad_alloc (m1, v)
                 | (data, m1) \<Rightarrow> Return data (m1, v))
           else Return InlineBuf (m, v))
          (\<lambda>data (m1, v1).
             and_then (lift (uninitialized_move_n (sv_data v1) (unat (sv_size v1)) data (m1, v1)))
               (\<lambda>_ (m2, v2).
                  and_then (lift (map_option (\<lambda>m3. (m3, v2)) (free (sv_data v2) m2)))
                    (\<lambda>_ (m3, v3).
                       Return () (m3, v3\<lparr>sv_data := data, sv_capacity := sv_size v3\<rparr>)))))"

subsection \<open>Mutating operations\<close>

text \<open>
  \<^verbatim>\<open>push_back(const T&)\<close> and \<^verbatim>\<open>push_back(T&&)\<close> have the same body.
\<close>

fun push_back :: "size_t \<Rightarrow> size_t \<Rightarrow> 'a \<Rightarrow> 'a st \<Rightarrow> (unit, 'a st) result" where
  "push_back N szT val (m, v) =
     and_then (if sv_size v = sv_capacity v then grow N szT 1 (m, v) else Return () (m, v))
       (\<lambda>_ (m1, v1).
          and_then (lift (placement_new (sv_data v1) (unat (sv_size v1)) val (m1, v1)))
            (\<lambda>_ (m2, v2). Return () (m2, v2\<lparr>sv_size := sv_size v2 + 1\<rparr>)))"

text \<open>
  \<^verbatim>\<open>emplace_back(args...)\<close>: \<open>ctor\<close> is the constructor of \<open>T\<close> that the arguments
  select; the reference returned is the slot of the new element.
\<close>

fun emplace_back ::
  "size_t \<Rightarrow> size_t \<Rightarrow> ('b \<Rightarrow> 'a) \<Rightarrow> 'b \<Rightarrow> 'a st \<Rightarrow> ('a option, 'a st) result" where
  "emplace_back N szT ctor args (m, v) =
     and_then (if sv_size v = sv_capacity v then grow N szT 1 (m, v) else Return () (m, v))
       (\<lambda>_ (m1, v1).
          and_then (lift (placement_new (sv_data v1) (unat (sv_size v1)) (ctor args) (m1, v1)))
            (\<lambda>_ (m2, v2).
               Return (slot (m2, v2) (unat (sv_size v2))) (m2, v2\<lparr>sv_size := sv_size v2 + 1\<rparr>)))"

text \<open>
  \<^verbatim>\<open>resize(newSize)\<close> and \<^verbatim>\<open>resize(newSize, value)\<close> differ in the value the new slots are
  constructed from: the value-initialised \<open>T\<close> (written \<open>T0\<close>), or \<open>value\<close>.
\<close>

fun resize_with :: "size_t \<Rightarrow> size_t \<Rightarrow> size_t \<Rightarrow> 'a \<Rightarrow> 'a st \<Rightarrow> (unit, 'a st) result" where
  "resize_with N szT newSize x (m, v) =
     and_then
       (if newSize < sv_size v
        then lift (destroy_n (sv_data v) (unat newSize) (unat (sv_size v - newSize)) (m, v))
        else if newSize > sv_size v
        then and_then (if newSize > sv_capacity v
                       then grow N szT (newSize - sv_capacity v) (m, v)
                       else Return () (m, v))
               (\<lambda>_ (m1, v1).
                  lift (uninitialized_fill_n (sv_data v1) (unat (sv_size v1))
                          (unat (newSize - sv_size v1)) x (m1, v1)))
        else Return () (m, v))
       (\<lambda>_ (m2, v2). Return () (m2, v2\<lparr>sv_size := newSize\<rparr>))"

definition resize :: "size_t \<Rightarrow> size_t \<Rightarrow> 'a \<Rightarrow> size_t \<Rightarrow> 'a st \<Rightarrow> (unit, 'a st) result" where
  "resize N szT T0 newSize s = resize_with N szT newSize T0 s"

definition resize_value :: "size_t \<Rightarrow> size_t \<Rightarrow> size_t \<Rightarrow> 'a \<Rightarrow> 'a st \<Rightarrow> (unit, 'a st) result" where
  "resize_value N szT newSize val s = resize_with N szT newSize val s"

text \<open>
  \<^verbatim>\<open>erase(const_iterator pos)\<close>. An iterator is a pointer into the storage, written as
  its offset from \<^verbatim>\<open>_data\<close>. The body is the assertion and
  \<^verbatim>\<open>std::destroy_at(_data + pos)\<close>, read as the destruction of the object \<open>pos\<close> points
  to; there is no \<^verbatim>\<open>return\<close> statement, so no iterator is returned. A failed assertion
  is undefined behaviour here.
\<close>

fun erase :: "size_t \<Rightarrow> 'a st \<Rightarrow> (unit, 'a st) result" where
  "erase pos (m, v) =
     (if pos < sv_size v then lift (destroy_n (sv_data v) (unat pos) 1 (m, v))
      else Undefined)"

text \<open>
  \<^verbatim>\<open>swap(other)\<close> works on two containers in one heap. The call
  \<^verbatim>\<open>std::swap_ranges(_data, _capacity, other._data)\<close> is read as exchanging the
  \<^verbatim>\<open>_capacity\<close> slots at \<^verbatim>\<open>_data\<close> with those at \<^verbatim>\<open>other._data\<close>. No other member is
  assigned.
\<close>

definition swap_ranges ::
  "nat \<Rightarrow> 'a machine \<times> 'a small_vector \<times> 'a small_vector \<Rightarrow>
   ('a machine \<times> 'a small_vector \<times> 'a small_vector) option" where
  "swap_ranges n w =
     (case w of (m, v, other) \<Rightarrow>
        (case (read_slots (sv_data v) 0 n (m, v), read_slots (sv_data other) 0 n (m, other)) of
           (Some xs, Some ys) \<Rightarrow>
             (case write_slots (sv_data v) 0 ys (m, v) of
                None \<Rightarrow> None
              | Some (m1, v1) \<Rightarrow>
                  (case write_slots (sv_data other) 0 xs (m1, other) of
                     None \<Rightarrow> None
                   | Some (m2, other2) \<Rightarrow> Some (m2, v1, other2)))
         | _ \<Rightarrow> None))"

definition swap ::
  "size_t \<Rightarrow> 'a machine \<times> 'a small_vector \<times> 'a small_vector \<Rightarrow>
   ('a machine \<times> 'a small_vector \<times> 'a small_vector) option" where
  "swap N w =
     (case w of (m, v, other) \<Rightarrow>
        if sv_capacity v = N \<and> sv_capacity other = N
        then swap_ranges (unat (sv_capacity v)) (m, v, other)
        else Some (m, v, other))"

text \<open>
  \<^verbatim>\<open>small_vector(InputIt first, InputIt last)\<close>: the default constructor, then
  \<^verbatim>\<open>push_back\<close> of every element of the range, here the list \<open>xs\<close>.
\<close>

fun push_all :: "size_t \<Rightarrow> size_t \<Rightarrow> 'a list \<Rightarrow> 'a st \<Rightarrow> (unit, 'a st) result" where
  "push_all N szT [] s = Return () s"
| "push_all N szT (x # xs) s = and_then (push_back N szT x s) (\<lambda>_. push_all N szT xs)"

definition small_vector_range ::
  "size_t \<Rightarrow> size_t \<Rightarrow> 'a list \<Rightarrow> 'a machine \<Rightarrow> (unit, 'a st) result" where
  "small_vector_range N szT xs m = push_all N szT xs (m, small_vector_ctor N)"

text \<open>A heap without blocks, in which every \<^verbatim>\<open>malloc\<close> succeeds.\<close>

definition heap0 :: "'a machine" where
  "heap0 = \<lparr>heap = (\<lambda>_. None), brk = 0, script = []\<rparr>"

text \<open>Two containers of \<^verbatim>\<open>small_vector<int, 4>\<close>: two elements inline, two in a heap block.\<close>

definition two_of_four :: "int st" where
  "two_of_four =
     (heap0, \<lparr>sv_data = InlineBuf, sv_capacity = 4, sv_size = 2,
              sv_buffer = [Some 10, Some 20, None, None]\<rparr>)"

definition two_in_heap :: "int st" where
  "two_in_heap =
     (heap0\<lparr>heap := (heap heap0)(0 \<mapsto> [Some 7, Some 8, None, None, None, None]), brk := 1\<rparr>,
      \<lparr>sv_data = HeapPtr 0, sv_capacity = 6, sv_size = 2, sv_buffer = replicate 4 None\<rparr>)"

text \<open>A full inline container of \<^verbatim>\<open>small_vector<int, 4>\<close>, and the same when the next
  \<^verbatim>\<open>malloc\<close> fails.\<close>

definition four_full :: "int st" where
  "four_full =
     (heap0, \<lparr>sv_data = InlineBuf, sv_capacity = 4, sv_size = 4,
              sv_buffer = [Some 1, Some 2, Some 3, Some 4]\<rparr>)"

definition four_full_oom :: "int st" where
  "four_full_oom = (heap0\<lparr>script := [False]\<rparr>, snd four_full)"

subsection \<open>Invariant\<close>

text \<open>
  The value of \<^verbatim>\<open>cap + std::max(add, cap / 2)\<close> as a natural number, before any
  wrap-around.
\<close>

definition grown :: "size_t \<Rightarrow> size_t \<Rightarrow> nat" where
  "grown cap add = unat cap + max (unat add) (unat cap div 2)"

text \<open>
  The container \<open>v\<close> holds the values \<open>xs\<close>: \<^verbatim>\<open>_size\<close> is their number and at most
  \<^verbatim>\<open>_capacity\<close>; \<^verbatim>\<open>_data\<close> points to a live block of \<^verbatim>\<open>_capacity\<close> slots whose first
  \<^verbatim>\<open>_size\<close> slots are the live objects \<open>xs\<close>; the block is the inline buffer only if
  \<^verbatim>\<open>_capacity\<close> is \<open>N\<close>, and otherwise a heap block with an address from \<open>B\<close> on that
  \<^verbatim>\<open>malloc\<close> has handed out.
\<close>

definition holds :: "nat \<Rightarrow> size_t \<Rightarrow> 'a st \<Rightarrow> 'a list \<Rightarrow> bool" where
  "holds B N s xs \<longleftrightarrow>
     (case s of (m, v) \<Rightarrow>
        unat (sv_size v) = length xs \<and> sv_size v \<le> sv_capacity v \<and> B \<le> brk m \<and>
        (case block_at s (sv_data v) of
           None \<Rightarrow> False
         | Some b \<Rightarrow> length b = unat (sv_capacity v) \<and> take (length xs) b = map Some xs) \<and>
        (case sv_data v of
           Null \<Rightarrow> False
         | InlineBuf \<Rightarrow> sv_capacity v = N
         | HeapPtr a \<Rightarrow> B \<le> a \<and> a < brk m))"

section \<open>Properties\<close>

subsection \<open>Sequencing\<close>

lemma and_then_Throw:
  "and_then r f = Throw e s \<longleftrightarrow> r = Throw e s \<or> (\<exists>x t. r = Return x t \<and> f x t = Throw e s)"
  by (cases r) auto

lemma and_then_Return:
  "and_then r f = Return y s \<longleftrightarrow> (\<exists>x t. r = Return x t \<and> f x t = Return y s)"
  by (cases r) auto

lemma lift_Throw [simp]: "lift x \<noteq> Throw e s"
  by (cases x) auto

lemma lift_Return: "lift x = Return u s \<longleftrightarrow> x = Some s"
  by (cases x) auto

subsection \<open>Accessors\<close>

text \<open>
  C8: \<^verbatim>\<open>at(i)\<close> throws exactly when \<open>i \<ge> size()\<close>, and then it throws
  \<^verbatim>\<open>std::out_of_range\<close>; for \<open>i < size()\<close> it returns the element at position \<open>i\<close> of
  \<^verbatim>\<open>[begin(), end())\<close>. The container and the heap are the same afterwards in both cases.
\<close>

theorem at_checked:
  "((\<exists>e s'. at off s = Throw e s') \<longleftrightarrow> sv_size (snd s) \<le> off) \<and>
   (sv_size (snd s) \<le> off \<longrightarrow> at off s = Throw Out_of_range s) \<and>
   (off < sv_size (snd s) \<longrightarrow> at off s = Return (elements s ! unat off) s)"
  by (auto simp: at_def elements_def word_less_nat_alt word_le_nat_alt)

theorem at_checked_witness:
  "at 2 two_of_four = Throw Out_of_range two_of_four \<and>
   at 1 two_of_four = Return (Some 20) two_of_four"
  using at_checked [of 2 two_of_four] at_checked [of 1 two_of_four]
  by (simp add: two_of_four_def elements_def slot_def)

text \<open>
  C9: \<^verbatim>\<open>empty()\<close> is \<^verbatim>\<open>!_data\<close>. A default-constructed container has size 0 and a
  non-null \<^verbatim>\<open>_data\<close>, so \<^verbatim>\<open>empty()\<close> returns 0 (false) although \<open>size() = 0\<close>.
\<close>

theorem empty_of_new_container:
  "empty (small_vector_ctor N) = 0 \<and> sv_size (small_vector_ctor N) = 0"
  by (simp add: empty_def small_vector_ctor_def)

subsection \<open>Resizing\<close>

text \<open>
  C10: \<^verbatim>\<open>resize(n)\<close> and \<^verbatim>\<open>resize(n, value)\<close> with \<open>n = size()\<close> return with the same
  container and the same heap: no member changes, no slot is written or destroyed, and
  \<^verbatim>\<open>malloc\<close> is not called.
\<close>

theorem resize_same_size:
  "resize N szT T0 (sv_size v) (m, v) = Return () (m, v) \<and>
   resize_value N szT (sv_size v) val (m, v) = Return () (m, v)"
  by (simp add: resize_def resize_value_def)

subsection \<open>Shrinking below the inline capacity\<close>

text \<open>
  C1: with \<open>N = 4\<close>, five calls of \<^verbatim>\<open>push_back\<close>, \<^verbatim>\<open>resize(1)\<close> and
  \<^verbatim>\<open>shrink_to_fit()\<close> all return, and leave \<open>capacity() = 1\<close>, which is less than \<open>N\<close>:
  \<^verbatim>\<open>shrink_to_fit\<close> assigns \<^verbatim>\<open>_capacity = _size\<close> also when it moves into the inline
  buffer.
\<close>

theorem shrink_to_fit_capacity_below_N:
  "case and_then (and_then (small_vector_range 4 4 [1, 2, 3, 4, 5 :: int] heap0)
                    (\<lambda>_. resize 4 4 0 1))
          (\<lambda>_. shrink_to_fit 4 4) of
     Return _ (m, v) \<Rightarrow> sv_size v = 1 \<and> sv_capacity v = 1 \<and> sv_capacity v < 4
   | _ \<Rightarrow> False"
  by code_simp

text \<open>
  C2: a container with \<open>N = 4\<close> in heap mode, of size 2 and capacity 6:
  \<^verbatim>\<open>shrink_to_fit()\<close> returns with \<^verbatim>\<open>_data\<close> at the inline buffer and the two elements
  kept, but with capacity 2, not \<open>N\<close>.
\<close>

theorem shrink_to_fit_inline_capacity:
  "case shrink_to_fit 4 4 two_in_heap of
     Return _ (m, v) \<Rightarrow>
       sv_data v = InlineBuf \<and> sv_capacity v = 2 \<and> sv_capacity v \<noteq> 4 \<and>
       elements (m, v) = [Some 7, Some 8]
   | _ \<Rightarrow> False"
  by code_simp

subsection \<open>Erasing and swapping\<close>

text \<open>
  C5: \<^verbatim>\<open>erase(pos)\<close> at the first of the three elements 1, 2, 3 returns with size 3:
  the first slot holds no object any more, and 2 and 3 are where they were.
\<close>

theorem erase_keeps_size:
  "case and_then (small_vector_range 4 4 [1, 2, 3 :: int] heap0) (\<lambda>_. erase 0) of
     Return _ (m, v) \<Rightarrow> sv_size v = 3 \<and> elements (m, v) = [None, Some 2, Some 3]
   | _ \<Rightarrow> False"
  by code_simp

text \<open>
  C6: \<^verbatim>\<open>swap\<close> of a container in heap mode holding 1, 2, 3, 4, 5 with an empty
  container (\<open>N = 4\<close>) leaves the first with 1, 2, 3, 4, 5 and the second empty.
\<close>

theorem swap_heap_mode_unchanged:
  "case small_vector_range 4 4 [1, 2, 3, 4, 5 :: int] heap0 of
     Return _ (m, a) \<Rightarrow>
       (case swap 4 (m, a, small_vector_ctor 4) of
          Some (m', a', b') \<Rightarrow>
            elements (m', a') = map Some [1, 2, 3, 4, 5] \<and> elements (m', b') = []
        | None \<Rightarrow> False)
   | _ \<Rightarrow> False"
  by code_simp

subsection \<open>Arithmetic of growth\<close>

lemma unat_max_word: "unat (max a b) = max (unat a) (unat b)" for a b :: "'a::len word"
  by (simp add: max_def word_le_nat_alt)

lemma unat_max_size: "unat (max_size szT) = (2 ^ 64 - 1) div unat szT"
  by (simp add: max_size_def unat_div unsigned_minus_1_eq_mask mask_eq_exp_minus_1)

lemma unat_grow_arg: "unat (max add (cap div 2)) = max (unat add) (unat cap div 2)"
  for add cap :: size_t
  by (simp add: unat_max_word unat_div)

lemma newCap_wraps:
  "cap + max add (cap div 2) < cap \<longleftrightarrow> 2 ^ 64 \<le> grown cap add" for add cap :: size_t
proof -
  have "cap \<le> cap + max add (cap div 2) \<longleftrightarrow> unat cap + unat (max add (cap div 2)) < 2 ^ 64"
    using no_olen_add_nat [of cap "max add (cap div 2)"] by simp
  then show ?thesis
    by (simp add: grown_def unat_grow_arg not_le [symmetric] del: not_le)
qed

lemma unat_newCap:
  "grown cap add < 2 ^ 64 \<Longrightarrow> unat (cap + max add (cap div 2)) = grown cap add"
  for add cap :: size_t
  using unat_add_lem [of cap "max add (cap div 2)"]
  by (simp add: grown_def unat_grow_arg)

lemma too_long_iff:
  "cap + max add (cap div 2) < cap \<or> max_size szT < cap + max add (cap div 2) \<longleftrightarrow>
   2 ^ 64 \<le> grown cap add \<or> (2 ^ 64 - 1) div unat szT < grown cap add"
proof (cases "2 ^ 64 \<le> grown cap add")
  case True
  then show ?thesis by (simp add: newCap_wraps)
next
  case False
  then have eq: "unat (cap + max add (cap div 2)) = grown cap add"
    by (simp add: unat_newCap)
  from False have "\<not> cap + max add (cap div 2) < cap"
    by (simp add: newCap_wraps)
  moreover have "max_size szT < cap + max add (cap div 2) \<longleftrightarrow>
      (2 ^ 64 - 1) div unat szT < grown cap add"
    by (simp only: word_less_nat_alt unat_max_size eq)
  ultimately show ?thesis using False by simp
qed

lemma grow_Length_error:
  "(\<exists>s'. grow N szT add (m, v) = Throw Length_error s') \<longleftrightarrow>
   2 ^ 64 \<le> grown (sv_capacity v) add \<or> (2 ^ 64 - 1) div unat szT < grown (sv_capacity v) add"
  unfolding too_long_iff [symmetric]
  by (auto simp: Let_def and_then_Throw split: prod.splits ptr.splits)

lemma grow_Return:
  assumes "grow N szT add (m, v) = Return u (m', v')"
  shows "unat (sv_capacity v') = grown (sv_capacity v) add"
proof -
  let ?newCap = "sv_capacity v + max add (sv_capacity v div 2)"
  from assms have ok: "\<not> (?newCap < sv_capacity v \<or> max_size szT < ?newCap)"
    by (auto simp: Let_def split: if_splits)
  then have small: "grown (sv_capacity v) add < 2 ^ 64"
    unfolding too_long_iff by simp
  from assms ok have "sv_capacity v' = ?newCap"
    by (auto simp: Let_def and_then_Return lift_Return split: if_splits prod.splits ptr.splits)
  with small show ?thesis by (simp add: unat_newCap)
qed


subsection \<open>Growth and insertion keep the elements\<close>

lemma malloc_ok:
  assumes "\<forall>rest. script m \<noteq> False # rest"
  shows "malloc bytes szT m =
    (HeapPtr (brk m),
     m\<lparr>heap := (heap m)(brk m \<mapsto> replicate (unat bytes div unat szT) None),
       brk := Suc (brk m), script := tl (script m)\<rparr>)"
  using assms by (auto simp: malloc_def split: list.splits bool.splits)

lemma script_tl: "False \<notin> set xs \<Longrightarrow> False \<notin> set (tl xs)"
  by (cases xs) auto

lemma bytes_div:
  assumes "c \<le> max_size szT"
  shows "unat (c * szT) div unat szT = unat c"
proof (cases "szT = 0")
  case True
  with assms show ?thesis by (simp add: max_size_def)
next
  case False
  then have pos: "0 < unat szT" by (simp add: unat_gt_0)
  from assms have "unat c \<le> (2 ^ 64 - 1) div unat szT"
    by (simp add: word_le_nat_alt unat_max_size)
  then have "unat c * unat szT \<le> ((2 ^ 64 - 1) div unat szT) * unat szT"
    by (rule mult_le_mono1)
  also have "\<dots> \<le> 2 ^ 64 - 1" by simp
  finally have "unat c * unat szT < 2 ^ LENGTH(64)" by simp
  then have "unat (c * szT) = unat c * unat szT"
    using unat_mult_lem [of c szT] by blast
  with pos show ?thesis by simp
qed

lemma elements_holds:
  assumes "holds B N s xs"
  shows "elements s = map Some xs"
proof -
  obtain m v where s: "s = (m, v)" by (cases s)
  from assms s obtain b where b: "block_at (m, v) (sv_data v) = Some b"
    "length b = unat (sv_capacity v)" "take (length xs) b = map Some xs"
    and n: "unat (sv_size v) = length xs" and le: "sv_size v \<le> sv_capacity v"
    by (auto simp: holds_def split: option.splits)
  from le n b(2) have len: "length xs \<le> length b" by (simp add: word_le_nat_alt)
  have "map (slot (m, v)) [0 ..< length xs] = take (length xs) b"
    using len b(1) by (intro nth_equalityI) (auto simp: slot_def)
  with b(3) n s show ?thesis by (simp add: elements_def)
qed


lemma grow_step:
  assumes inv: "holds B N (m, v) xs"
    and ok: "\<forall>rest. script m \<noteq> False # rest"
    and fit: "grown (sv_capacity v) add \<le> unat (max_size szT)"
  shows "\<exists>m' v'. grow N szT add (m, v) = Return () (m', v') \<and> holds B N (m', v') xs \<and>
           unat (sv_capacity v') = grown (sv_capacity v) add \<and> sv_size v' = sv_size v \<and>
           script m' = tl (script m) \<and> (\<forall>a<B. heap m' a = heap m a)"
proof -
  let ?newCap = "sv_capacity v + max add (sv_capacity v div 2)"
  have "unat (max_size szT) < 2 ^ 64"
    using unsigned_less [of "max_size szT"] by simp
  with fit have small: "grown (sv_capacity v) add < 2 ^ 64" by simp
  then have ucap: "unat ?newCap = grown (sv_capacity v) add" by (simp add: unat_newCap)
  from fit small have nothrow: "\<not> (?newCap < sv_capacity v \<or> max_size szT < ?newCap)"
    unfolding too_long_iff by (simp add: unat_max_size)
  then have "?newCap \<le> max_size szT" by (simp add: not_less)
  then have blk: "unat (?newCap * szT) div unat szT = unat ?newCap" by (rule bytes_div)
  from inv obtain b where b: "block_at (m, v) (sv_data v) = Some b"
      "length b = unat (sv_capacity v)" "take (length xs) b = map Some xs"
    and n: "unat (sv_size v) = length xs" and le: "sv_size v \<le> sv_capacity v"
    and B: "B \<le> brk m"
    by (auto simp: holds_def split: option.splits)
  from le n have nc: "length xs \<le> unat (sv_capacity v)" by (simp add: word_le_nat_alt)
  also have "\<dots> \<le> unat ?newCap" by (simp add: ucap grown_def)
  finally have nle: "length xs \<le> unat ?newCap" .
  from nothrow have "sv_capacity v \<le> ?newCap" by (simp add: not_less)
  with le have le': "sv_size v \<le> ?newCap" by (rule order_trans)
  define m1 where "m1 = m\<lparr>heap := (heap m)(brk m \<mapsto> replicate (unat ?newCap) None),
       brk := Suc (brk m), script := tl (script m)\<rparr>"
  have mal: "malloc (?newCap * szT) szT m = (HeapPtr (brk m), m1)"
    by (simp add: malloc_ok ok blk m1_def)
  define m2 where "m2 = m1\<lparr>heap := (heap m1)(brk m \<mapsto>
       map Some xs @ replicate (unat ?newCap - length xs) None)\<rparr>"
  have old: "block_at (m1, v) (sv_data v) = Some b"
    using b(1) inv by (cases "sv_data v") (auto simp: m1_def holds_def)
  have mv: "uninitialized_move_n (sv_data v) (unat (sv_size v)) (HeapPtr (brk m)) (m1, v) =
      Some (m2, v)"
    using old b n nc nle
    by (simp add: uninitialized_move_n_def read_slots_def write_slots_def m1_def m2_def)
  show ?thesis
  proof (cases "sv_data v")
    case Null
    with inv show ?thesis by (simp add: holds_def)
  next
    case InlineBuf
    with inv have "sv_capacity v = N" by (simp add: holds_def)
    then have "grow N szT add (m, v) =
        Return () (m2, v\<lparr>sv_data := HeapPtr (brk m), sv_capacity := ?newCap\<rparr>)"
      using nothrow mal mv by (simp add: Let_def)
    moreover have "holds B N (m2, v\<lparr>sv_data := HeapPtr (brk m), sv_capacity := ?newCap\<rparr>) xs"
      using n le' B nle by (simp add: holds_def m2_def m1_def)
    moreover have "script m2 = tl (script m)"
      by (simp add: m2_def m1_def)
    moreover have "\<forall>a<B. heap m2 a = heap m a"
      using B by (simp add: m2_def m1_def)
    ultimately show ?thesis using ucap by auto
  next
    case (HeapPtr a)
    with inv b(1) have a: "B \<le> a" "a < brk m" "heap m a = Some b"
      by (auto simp: holds_def)
    define m3 where "m3 = (if sv_capacity v \<noteq> N then m2\<lparr>heap := (heap m2)(a := None)\<rparr> else m2)"
    have "grow N szT add (m, v) =
        Return () (m3, v\<lparr>sv_data := HeapPtr (brk m), sv_capacity := ?newCap\<rparr>)"
      using nothrow mal mv HeapPtr a
      by (simp add: Let_def m3_def m2_def m1_def)
    moreover have "holds B N (m3, v\<lparr>sv_data := HeapPtr (brk m), sv_capacity := ?newCap\<rparr>) xs"
      using n le' B nle a by (auto simp: holds_def m3_def m2_def m1_def)
    moreover have "script m3 = tl (script m)"
      by (simp add: m3_def m2_def m1_def)
    moreover have "\<forall>a<B. heap m3 a = heap m a"
      using B a by (simp add: m3_def m2_def m1_def)
    ultimately show ?thesis using ucap by auto
  qed
qed


lemma unat_inc:
  assumes "i < (c :: size_t)"
  shows "unat (i + 1) = Suc (unat i)"
proof -
  from assms have "unat i < unat c" by (simp add: word_less_nat_alt)
  moreover have "unat c < 2 ^ LENGTH(64)" by (rule unsigned_less)
  ultimately have "unat i + unat (1 :: size_t) < 2 ^ LENGTH(64)" by simp
  then have "unat (i + 1) = unat i + unat (1 :: size_t)"
    using unat_add_lem [of i 1] by blast
  then show ?thesis by simp
qed

lemma placement_step:
  assumes inv: "holds B N (m, v) xs"
    and lt: "sv_size v < sv_capacity v"
  shows "\<exists>m' v'. placement_new (sv_data v) (unat (sv_size v)) x (m, v) = Some (m', v') \<and>
           holds B N (m', v'\<lparr>sv_size := sv_size v' + 1\<rparr>) (xs @ [x]) \<and>
           script m' = script m \<and> (\<forall>a<B. heap m' a = heap m a)"
proof -
  from inv obtain b where b: "block_at (m, v) (sv_data v) = Some b"
      "length b = unat (sv_capacity v)" "take (length xs) b = map Some xs"
    and n: "unat (sv_size v) = length xs" and B: "B \<le> brk m"
    by (auto simp: holds_def split: option.splits)
  from lt n b(2) have room: "Suc (length xs) \<le> length b" by (simp add: word_less_nat_alt)
  from lt have sz: "unat (sv_size v + 1) = Suc (length xs)" "sv_size v + 1 \<le> sv_capacity v"
    using n by (simp_all add: unat_inc inc_le)
  let ?b' = "take (length xs) b @ [Some x] @ drop (Suc (length xs)) b"
  have len: "length ?b' = length b" using room by simp
  have tk: "take (Suc (length xs)) ?b' = map Some (xs @ [x])"
    using room b(3) by simp
  show ?thesis
  proof (cases "sv_data v")
    case Null
    with inv show ?thesis by (simp add: holds_def)
  next
    case InlineBuf
    with inv b(1) have "sv_capacity v = N" "sv_buffer v = b" by (auto simp: holds_def)
    then show ?thesis
      using InlineBuf room n sz B len tk b(2)
      by (simp add: placement_new_def write_slots_def holds_def)
  next
    case (HeapPtr a)
    with inv b(1) have "B \<le> a" "a < brk m" "heap m a = Some b" by (auto simp: holds_def)
    then show ?thesis
      using HeapPtr room n sz B len tk b(2)
      by (simp add: placement_new_def write_slots_def holds_def)
  qed
qed

lemma grow_Return_holds:
  assumes inv: "holds B N (m, v) xs"
    and ret: "grow N szT add (m, v) = Return u (m', v')"
  shows "holds B N (m', v') xs \<and> unat (sv_capacity v') = grown (sv_capacity v) add \<and>
         sv_size v' = sv_size v \<and> script m' = tl (script m) \<and>
         (\<forall>a<B. heap m' a = heap m a)"
proof -
  let ?newCap = "sv_capacity v + max add (sv_capacity v div 2)"
  from ret have nothrow: "\<not> (?newCap < sv_capacity v \<or> max_size szT < ?newCap)"
    by (auto simp: Let_def split: if_splits)
  then have fit: "grown (sv_capacity v) add \<le> unat (max_size szT)"
    unfolding too_long_iff by (simp add: unat_max_size not_less)
  have ok: "\<forall>rest. script m \<noteq> False # rest"
  proof (intro allI notI)
    fix rest assume "script m = False # rest"
    then have "malloc (?newCap * szT) szT m = (Null, m\<lparr>script := rest\<rparr>)"
      by (simp add: malloc_def)
    with nothrow ret show False by (simp add: Let_def)
  qed
  from grow_step [OF inv ok fit] ret show ?thesis by (auto simp del: grow.simps)
qed

lemma push_back_Return_holds:
  assumes inv: "holds B N (m, v) xs"
    and ret: "push_back N szT x (m, v) = Return u (m', v')"
  shows "holds B N (m', v') (xs @ [x]) \<and> (\<forall>a<B. heap m' a = heap m a) \<and>
         (script m' = script m \<or> script m' = tl (script m))"
proof -
  from inv have n: "unat (sv_size v) = length xs" and le: "sv_size v \<le> sv_capacity v"
    by (auto simp: holds_def)
  from ret obtain m1 v1 where
    s1: "(if sv_size v = sv_capacity v then grow N szT 1 (m, v) else Return () (m, v)) =
        Return () (m1, v1)"
    by (auto simp: and_then_Return simp del: grow.simps)
  have "holds B N (m1, v1) xs \<and> sv_size v1 < sv_capacity v1 \<and>
      (script m1 = script m \<or> script m1 = tl (script m)) \<and> (\<forall>a<B. heap m1 a = heap m a)"
  proof (cases "sv_size v = sv_capacity v")
    case True
    with s1 have "grow N szT 1 (m, v) = Return () (m1, v1)" by (simp del: grow.simps)
    from grow_Return_holds [OF inv this] have
      g: "holds B N (m1, v1) xs" "unat (sv_capacity v1) = grown (sv_capacity v) 1"
        "sv_size v1 = sv_size v" "script m1 = tl (script m)" "\<forall>a<B. heap m1 a = heap m a"
      by blast+
    from g(2,3) True have "sv_size v1 < sv_capacity v1"
      by (simp add: word_less_nat_alt grown_def)
    with g show ?thesis by simp
  next
    case False
    with le have "sv_size v < sv_capacity v" by simp
    with False inv s1 show ?thesis by simp
  qed
  then have h1: "holds B N (m1, v1) xs" and lt: "sv_size v1 < sv_capacity v1"
    and sc1: "script m1 = script m \<or> script m1 = tl (script m)"
    and fr1: "\<forall>a<B. heap m1 a = heap m a"
    by blast+
  from placement_step [OF h1 lt, of x] obtain m2 v2 where
    p: "placement_new (sv_data v1) (unat (sv_size v1)) x (m1, v1) = Some (m2, v2)"
      "holds B N (m2, v2\<lparr>sv_size := sv_size v2 + 1\<rparr>) (xs @ [x])"
      "script m2 = script m1" "\<forall>a<B. heap m2 a = heap m1 a"
    by blast
  have "push_back N szT x (m, v) = Return () (m2, v2\<lparr>sv_size := sv_size v2 + 1\<rparr>)"
    using s1 p(1) by (simp del: grow.simps)
  with ret have "m' = m2" "v' = v2\<lparr>sv_size := sv_size v2 + 1\<rparr>" by simp_all
  with p sc1 fr1 show ?thesis by auto
qed

lemma push_back_total:
  assumes inv: "holds B N (m, v) xs"
    and ok: "False \<notin> set (script m)"
    and fit: "Suc (length xs) + Suc (length xs) div 2 \<le> unat (max_size szT)"
  shows "\<exists>m' v'. push_back N szT x (m, v) = Return () (m', v')"
proof -
  from inv have n: "unat (sv_size v) = length xs" and le: "sv_size v \<le> sv_capacity v"
    by (auto simp: holds_def)
  have "\<exists>m1 v1.
      (if sv_size v = sv_capacity v then grow N szT 1 (m, v) else Return () (m, v)) =
        Return () (m1, v1) \<and>
      holds B N (m1, v1) xs \<and> sv_size v1 < sv_capacity v1"
  proof (cases "sv_size v = sv_capacity v")
    case True
    with n have "grown (sv_capacity v) 1 \<le> Suc (length xs) + Suc (length xs) div 2"
      by (simp add: grown_def)
    with fit have f: "grown (sv_capacity v) 1 \<le> unat (max_size szT)" by simp
    from ok have "\<forall>rest. script m \<noteq> False # rest" by auto
    from grow_step [OF inv this f] obtain m1 v1 where
      g: "grow N szT 1 (m, v) = Return () (m1, v1)" "holds B N (m1, v1) xs"
        "unat (sv_capacity v1) = grown (sv_capacity v) 1" "sv_size v1 = sv_size v"
      by blast
    from g(3,4) True have "sv_size v1 < sv_capacity v1"
      by (simp add: word_less_nat_alt grown_def)
    with g True show ?thesis by (simp del: grow.simps)
  next
    case False
    with le have "sv_size v < sv_capacity v" by simp
    with False inv show ?thesis by simp
  qed
  then obtain m1 v1 where
    s1: "(if sv_size v = sv_capacity v then grow N szT 1 (m, v) else Return () (m, v)) =
        Return () (m1, v1)"
    and h1: "holds B N (m1, v1) xs" and lt: "sv_size v1 < sv_capacity v1"
    by blast
  from placement_step [OF h1 lt, of x] obtain m2 v2 where
    "placement_new (sv_data v1) (unat (sv_size v1)) x (m1, v1) = Some (m2, v2)"
    by blast
  with s1 show ?thesis by (simp del: grow.simps)
qed

lemma push_all_Return_holds:
  assumes "holds B N (m, v) xs"
    and "push_all N szT ys (m, v) = Return u (m', v')"
  shows "holds B N (m', v') (xs @ ys) \<and> (\<forall>a<B. heap m' a = heap m a)"
  using assms
proof (induction ys arbitrary: m v xs)
  case Nil
  then show ?case by simp
next
  case (Cons y ys)
  from Cons.prems(2) obtain m1 v1 where
    p: "push_back N szT y (m, v) = Return () (m1, v1)"
    and r: "push_all N szT ys (m1, v1) = Return u (m', v')"
    by (auto simp: and_then_Return simp del: push_back.simps)
  from push_back_Return_holds [OF Cons.prems(1) p]
  have h: "holds B N (m1, v1) (xs @ [y])" and f: "\<forall>a<B. heap m1 a = heap m a"
    by blast+
  from Cons.IH [OF h r] f show ?case by simp
qed

lemma push_all_total:
  assumes "holds B N (m, v) xs"
    and "False \<notin> set (script m)"
    and "length (xs @ ys) + length (xs @ ys) div 2 \<le> unat (max_size szT)"
  shows "\<exists>m' v'. push_all N szT ys (m, v) = Return () (m', v')"
  using assms
proof (induction ys arbitrary: m v xs)
  case Nil
  then show ?case by simp
next
  case (Cons y ys)
  from Cons.prems(3) have "Suc (length xs) + Suc (length xs) div 2 \<le> unat (max_size szT)"
    by simp
  from push_back_total [OF Cons.prems(1,2) this] obtain m1 v1 where
    p: "push_back N szT y (m, v) = Return () (m1, v1)"
    by blast
  from push_back_Return_holds [OF Cons.prems(1) p]
  have h: "holds B N (m1, v1) (xs @ [y])"
    and sc: "script m1 = script m \<or> script m1 = tl (script m)"
    by blast+
  from sc Cons.prems(2) have ok1: "False \<notin> set (script m1)"
    by (auto simp: script_tl)
  from Cons.prems(3) have "length ((xs @ [y]) @ ys) + length ((xs @ [y]) @ ys) div 2
      \<le> unat (max_size szT)"
    by simp
  from Cons.IH [OF h ok1 this] p show ?case by (simp del: push_back.simps)
qed

lemma ctor_holds: "holds (brk m) N (m, small_vector_ctor N) []"
  by (simp add: holds_def small_vector_ctor_def)

lemma elements_frame:
  assumes "holds B N (m1, v) xs"
    and "\<forall>a<brk m1. heap m2 a = heap m1 a"
  shows "elements (m2, v) = elements (m1, v)"
proof -
  from assms have "block_at (m2, v) (sv_data v) = block_at (m1, v) (sv_data v)"
    by (cases "sv_data v") (auto simp: holds_def)
  then show ?thesis by (simp add: elements_def slot_def)
qed


subsection \<open>Failure leaves the container as it was\<close>

lemma elements_same_heap:
  "heap m' = heap m \<Longrightarrow> elements (m', v) = elements (m, v)"
proof -
  assume "heap m' = heap m"
  then have "block_at (m', v) (sv_data v) = block_at (m, v) (sv_data v)"
    by (cases "sv_data v") auto
  then show ?thesis by (simp add: elements_def slot_def)
qed

lemma malloc_Null:
  "malloc bytes szT m = (Null, m1) \<Longrightarrow> heap m1 = heap m \<and> brk m1 = brk m"
  by (auto simp: malloc_def split: list.splits bool.splits)

lemma grow_Throw:
  assumes "grow N szT k (m, v) = Throw e (m', v')"
  shows "(e = Length_error \<or> e = Bad_alloc) \<and> v' = v \<and> heap m' = heap m"
  using assms
  by (auto simp: Let_def and_then_Throw lift_Return split: if_splits prod.splits ptr.splits
      dest: malloc_Null)

lemma push_back_Throw:
  assumes "push_back N szT x (m, v) = Throw e (m', v')"
  shows "(e = Length_error \<or> e = Bad_alloc) \<and> v' = v \<and> heap m' = heap m"
  using assms
  by (auto simp: and_then_Throw simp del: grow.simps split: if_splits dest: grow_Throw)

lemma emplace_back_Throw:
  assumes "emplace_back N szT ctor args (m, v) = Throw e (m', v')"
  shows "(e = Length_error \<or> e = Bad_alloc) \<and> v' = v \<and> heap m' = heap m"
  using assms
  by (auto simp: and_then_Throw simp del: grow.simps split: if_splits dest: grow_Throw)

lemma resize_with_Throw:
  assumes "resize_with N szT n x (m, v) = Throw e (m', v')"
  shows "(e = Length_error \<or> e = Bad_alloc) \<and> v' = v \<and> heap m' = heap m"
  using assms
  by (auto simp: and_then_Throw simp del: grow.simps split: if_splits dest: grow_Throw)

lemma shrink_to_fit_Throw:
  assumes "shrink_to_fit N szT (m, v) = Throw e (m', v')"
  shows "e = Bad_alloc \<and> v' = v \<and> heap m' = heap m"
  using assms
  by (auto simp: and_then_Throw split: if_splits prod.splits ptr.splits dest: malloc_Null)

lemma unchanged_elements:
  assumes "v' = v" and "heap m' = heap m"
  shows "elements (m', v') = elements (m, v)"
  using assms elements_same_heap [of m' m v] by blast

text \<open>
  C4: when \<^verbatim>\<open>push_back\<close>, \<^verbatim>\<open>emplace_back\<close>, \<^verbatim>\<open>resize\<close> (either overload) or
  \<^verbatim>\<open>shrink_to_fit\<close> throws, the exception is \<^verbatim>\<open>std::bad_alloc\<close> or
  \<^verbatim>\<open>std::length_error\<close>, and the members of the container (size, capacity, data pointer,
  inline buffer), the heap blocks and so the elements of \<^verbatim>\<open>[begin(), end())\<close> are what they
  were before the call.
\<close>

theorem failure_leaves_container:
  "(push_back N szT x (m, v) = Throw e (m', v') \<longrightarrow>
      (e = Bad_alloc \<or> e = Length_error) \<and> v' = v \<and> heap m' = heap m \<and>
      elements (m', v') = elements (m, v)) \<and>
   (emplace_back N szT ctor args (m, v) = Throw e (m', v') \<longrightarrow>
      (e = Bad_alloc \<or> e = Length_error) \<and> v' = v \<and> heap m' = heap m \<and>
      elements (m', v') = elements (m, v)) \<and>
   (resize N szT T0 n (m, v) = Throw e (m', v') \<longrightarrow>
      (e = Bad_alloc \<or> e = Length_error) \<and> v' = v \<and> heap m' = heap m \<and>
      elements (m', v') = elements (m, v)) \<and>
   (resize_value N szT n x (m, v) = Throw e (m', v') \<longrightarrow>
      (e = Bad_alloc \<or> e = Length_error) \<and> v' = v \<and> heap m' = heap m \<and>
      elements (m', v') = elements (m, v)) \<and>
   (shrink_to_fit N szT (m, v) = Throw e (m', v') \<longrightarrow>
      e = Bad_alloc \<and> v' = v \<and> heap m' = heap m \<and>
      elements (m', v') = elements (m, v))"
proof -
  have c1: "push_back N szT x (m, v) = Throw e (m', v') \<longrightarrow>
      (e = Bad_alloc \<or> e = Length_error) \<and> v' = v \<and> heap m' = heap m \<and>
      elements (m', v') = elements (m, v)"
    using push_back_Throw [of N szT x m v e m' v'] unchanged_elements [of v' v m' m]
    by blast
  have c2: "emplace_back N szT ctor args (m, v) = Throw e (m', v') \<longrightarrow>
      (e = Bad_alloc \<or> e = Length_error) \<and> v' = v \<and> heap m' = heap m \<and>
      elements (m', v') = elements (m, v)"
    using emplace_back_Throw [of N szT ctor args m v e m' v'] unchanged_elements [of v' v m' m]
    by blast
  have c3: "resize N szT T0 n (m, v) = Throw e (m', v') \<longrightarrow>
      (e = Bad_alloc \<or> e = Length_error) \<and> v' = v \<and> heap m' = heap m \<and>
      elements (m', v') = elements (m, v)"
    unfolding resize_def
    using resize_with_Throw [of N szT n T0 m v e m' v'] unchanged_elements [of v' v m' m]
    by blast
  have c4: "resize_value N szT n x (m, v) = Throw e (m', v') \<longrightarrow>
      (e = Bad_alloc \<or> e = Length_error) \<and> v' = v \<and> heap m' = heap m \<and>
      elements (m', v') = elements (m, v)"
    unfolding resize_value_def
    using resize_with_Throw [of N szT n x m v e m' v'] unchanged_elements [of v' v m' m]
    by blast
  have c5: "shrink_to_fit N szT (m, v) = Throw e (m', v') \<longrightarrow>
      e = Bad_alloc \<and> v' = v \<and> heap m' = heap m \<and>
      elements (m', v') = elements (m, v)"
    using shrink_to_fit_Throw [of N szT m v e m' v'] unchanged_elements [of v' v m' m]
    by blast
  show ?thesis by (rule conjI c1 c2 c3 c4 c5)+
qed

theorem failure_leaves_container_witness:
  "push_back 4 4 5 four_full_oom = Throw Bad_alloc four_full \<and>
   snd four_full = snd four_full_oom \<and>
   heap (fst four_full) = heap (fst four_full_oom) \<and>
   elements four_full = elements four_full_oom"
proof -
  have t: "push_back 4 4 5 (fst four_full_oom, snd four_full_oom) =
      Throw Bad_alloc (fst four_full, snd four_full)"
    by (simp add: four_full_oom_def four_full_def heap0_def malloc_def max_size_def)
  from failure_leaves_container [THEN conjunct1, THEN mp, OF t] t
  show ?thesis by (simp add: four_full_oom_def)
qed


subsection \<open>The new capacity\<close>

text \<open>
  C3: \<^verbatim>\<open>_grow(k)\<close> at capacity \<open>c\<close> throws \<^verbatim>\<open>std::length_error\<close> exactly when
  \<open>c + max k (c div 2)\<close>, computed without wrap-around, does not fit in 64 bits or exceeds
  \<^verbatim>\<open>max_size()\<close>, which is \<open>(2\<^sup>6\<^sup>4 - 1) div sizeof(T)\<close>. When it returns, the new capacity
  is \<open>c + max k (c div 2)\<close>, at least \<open>c + k\<close>; it does return from a state that satisfies
  \<open>holds\<close> when the sum is within \<^verbatim>\<open>max_size()\<close> and \<^verbatim>\<open>malloc\<close> succeeds. With
  \<open>N = 4\<close>, four pushes leave capacity 4 and the fifth gives capacity 6.
\<close>

theorem grow_new_capacity:
  "((\<exists>s'. grow N szT k (m, v) = Throw Length_error s') \<longleftrightarrow>
      2 ^ 64 \<le> unat (sv_capacity v) + max (unat k) (unat (sv_capacity v) div 2) \<or>
      (2 ^ 64 - 1) div unat szT <
        unat (sv_capacity v) + max (unat k) (unat (sv_capacity v) div 2)) \<and>
   (\<forall>u m' v'. grow N szT k (m, v) = Return u (m', v') \<longrightarrow>
      unat (sv_capacity v') =
        unat (sv_capacity v) + max (unat k) (unat (sv_capacity v) div 2) \<and>
      unat (sv_capacity v) + unat k \<le> unat (sv_capacity v')) \<and>
   unat (max_size szT) = (2 ^ 64 - 1) div unat szT \<and>
   (holds B N (m, v) xs \<and> (\<forall>rest. script m \<noteq> False # rest) \<and>
    unat (sv_capacity v) + max (unat k) (unat (sv_capacity v) div 2)
      \<le> (2 ^ 64 - 1) div unat szT \<longrightarrow>
      (\<exists>m' v'. grow N szT k (m, v) = Return () (m', v'))) \<and>
   (case small_vector_range 4 4 [1, 2, 3, 4 :: int] heap0 of
      Return _ (m4, v4) \<Rightarrow>
        sv_size v4 = 4 \<and> sv_capacity v4 = 4 \<and>
        (case push_back 4 4 5 (m4, v4) of
           Return _ (m5, v5) \<Rightarrow> sv_size v5 = 5 \<and> sv_capacity v5 = 6
         | _ \<Rightarrow> False)
    | _ \<Rightarrow> False)"
proof -
  have c1: "(\<exists>s'. grow N szT k (m, v) = Throw Length_error s') \<longleftrightarrow>
      2 ^ 64 \<le> unat (sv_capacity v) + max (unat k) (unat (sv_capacity v) div 2) \<or>
      (2 ^ 64 - 1) div unat szT <
        unat (sv_capacity v) + max (unat k) (unat (sv_capacity v) div 2)"
    using grow_Length_error [of N szT k m v] by (simp only: grown_def)
  have c2: "\<forall>u m' v'. grow N szT k (m, v) = Return u (m', v') \<longrightarrow>
      unat (sv_capacity v') =
        unat (sv_capacity v) + max (unat k) (unat (sv_capacity v) div 2) \<and>
      unat (sv_capacity v) + unat k \<le> unat (sv_capacity v')"
  proof (intro allI impI)
    fix u m' v'
    assume "grow N szT k (m, v) = Return u (m', v')"
    from grow_Return [OF this]
    have "unat (sv_capacity v') =
        unat (sv_capacity v) + max (unat k) (unat (sv_capacity v) div 2)"
      by (simp only: grown_def)
    then show "unat (sv_capacity v') =
        unat (sv_capacity v) + max (unat k) (unat (sv_capacity v) div 2) \<and>
      unat (sv_capacity v) + unat k \<le> unat (sv_capacity v')"
      by simp
  qed
  have c3: "unat (max_size szT) = (2 ^ 64 - 1) div unat szT"
    by (rule unat_max_size)
  have c4: "holds B N (m, v) xs \<and> (\<forall>rest. script m \<noteq> False # rest) \<and>
    unat (sv_capacity v) + max (unat k) (unat (sv_capacity v) div 2)
      \<le> (2 ^ 64 - 1) div unat szT \<longrightarrow>
      (\<exists>m' v'. grow N szT k (m, v) = Return () (m', v'))"
  proof
    assume a: "holds B N (m, v) xs \<and> (\<forall>rest. script m \<noteq> False # rest) \<and>
      unat (sv_capacity v) + max (unat k) (unat (sv_capacity v) div 2)
        \<le> (2 ^ 64 - 1) div unat szT"
    then have "grown (sv_capacity v) k \<le> unat (max_size szT)"
      by (simp only: grown_def unat_max_size)
    with a grow_step [where B=B and N=N and m=m and v=v and xs=xs and szT=szT and add=k]
    show "\<exists>m' v'. grow N szT k (m, v) = Return () (m', v')" by blast
  qed
  have c5: "case small_vector_range 4 4 [1, 2, 3, 4 :: int] heap0 of
      Return _ (m4, v4) \<Rightarrow>
        sv_size v4 = 4 \<and> sv_capacity v4 = 4 \<and>
        (case push_back 4 4 5 (m4, v4) of
           Return _ (m5, v5) \<Rightarrow> sv_size v5 = 5 \<and> sv_capacity v5 = 6
         | _ \<Rightarrow> False)
    | _ \<Rightarrow> False"
    by code_simp
  show ?thesis by (rule conjI c1 c2 c3 c4 c5)+
qed

lemma four_full_holds: "holds 0 4 four_full [1, 2, 3, 4]"
  by (simp add: holds_def four_full_def heap0_def)

theorem grow_new_capacity_witness:
  "(\<exists>m' v'. grow 4 4 1 four_full = Return () (m', v') \<and> unat (sv_capacity v') = 6) \<and>
   (\<exists>s'. grow 4 4 (2 ^ 63) four_full = Throw Length_error s')"
proof -
  note g = grow_new_capacity [of 4 4 _ "fst four_full" "snd four_full" 0 "[1, 2, 3, 4]"]
  have cap: "sv_capacity (snd four_full) = 4" and scr: "script (fst four_full) = []"
    by (simp_all add: four_full_def heap0_def)
  have h: "holds 0 4 (fst four_full, snd four_full) [1, 2, 3, 4]"
    using four_full_holds by simp
  from g [of 1] h cap scr
  obtain m' v' where r: "grow 4 4 1 (fst four_full, snd four_full) = Return () (m', v')"
    by auto
  with g [of 1] cap have "unat (sv_capacity v') = 6" by auto
  with r have a: "\<exists>m' v'. grow 4 4 1 four_full = Return () (m', v') \<and> unat (sv_capacity v') = 6"
    by (auto simp del: grow.simps)
  from g [of "2 ^ 63"] cap
  have "\<exists>s'. grow 4 4 (2 ^ 63) (fst four_full, snd four_full) = Throw Length_error s'"
    by simp
  then have b: "\<exists>s'. grow 4 4 (2 ^ 63) four_full = Throw Length_error s'"
    by (simp del: grow.simps)
  from a b show ?thesis by blast
qed


subsection \<open>Sequences of insertions\<close>

lemma push_all_ctor:
  assumes "push_all N szT xs (m, small_vector_ctor N) = Return u (m1, v1)"
  shows "holds (brk m) N (m1, v1) xs" and "\<forall>a<brk m. heap m1 a = heap m a"
  using push_all_Return_holds [OF ctor_holds assms] by simp_all

lemma holds_size: "holds B N (m, v) xs \<Longrightarrow> unat (sv_size v) = length xs"
  by (simp add: holds_def)

text \<open>
  C7: whenever the pushes of \<open>xs\<close> onto a default-constructed container all return, the
  size is the length of \<open>xs\<close> and \<^verbatim>\<open>[begin(), end())\<close> holds the values of \<open>xs\<close> in
  order. The range constructor is that sequence of pushes; the container it builds
  compares equal under \<^verbatim>\<open>operator==\<close> to itself and, both ways, to a second container
  built from the same range in the heap the first left. The pushes do all return when no
  coming \<^verbatim>\<open>malloc\<close> fails and \<open>n + n div 2\<close> is within \<^verbatim>\<open>max_size()\<close>.
\<close>

theorem push_back_sequence:
  "(\<forall>u m1 v1. push_all N szT xs (m, small_vector_ctor N) = Return u (m1, v1) \<longrightarrow>
      unat (sv_size v1) = length xs \<and> elements (m1, v1) = map Some xs) \<and>
   (\<forall>u m1 v1. small_vector_range N szT xs m = Return u (m1, v1) \<longrightarrow>
      elements (m1, v1) = map Some xs \<and> op_eq m1 v1 v1 \<and>
      (\<forall>u2 m2 v2. small_vector_range N szT xs m1 = Return u2 (m2, v2) \<longrightarrow>
         elements (m2, v1) = map Some xs \<and> op_eq m2 v1 v2 \<and> op_eq m2 v2 v1)) \<and>
   (False \<notin> set (script m) \<and>
    length xs + length xs div 2 \<le> (2 ^ 64 - 1) div unat szT \<longrightarrow>
      (\<exists>m1 v1. small_vector_range N szT xs m = Return () (m1, v1)))"
proof -
  have c1: "\<forall>u m1 v1. push_all N szT xs (m, small_vector_ctor N) = Return u (m1, v1) \<longrightarrow>
      unat (sv_size v1) = length xs \<and> elements (m1, v1) = map Some xs"
  proof (intro allI impI)
    fix u m1 v1
    assume "push_all N szT xs (m, small_vector_ctor N) = Return u (m1, v1)"
    then have "holds (brk m) N (m1, v1) xs" by (rule push_all_ctor)
    then show "unat (sv_size v1) = length xs \<and> elements (m1, v1) = map Some xs"
      by (simp add: holds_size elements_holds)
  qed
  have c2: "\<forall>u m1 v1. small_vector_range N szT xs m = Return u (m1, v1) \<longrightarrow>
      elements (m1, v1) = map Some xs \<and> op_eq m1 v1 v1 \<and>
      (\<forall>u2 m2 v2. small_vector_range N szT xs m1 = Return u2 (m2, v2) \<longrightarrow>
         elements (m2, v1) = map Some xs \<and> op_eq m2 v1 v2 \<and> op_eq m2 v2 v1)"
  proof (intro allI impI)
    fix u m1 v1
    assume "small_vector_range N szT xs m = Return u (m1, v1)"
    then have r1: "push_all N szT xs (m, small_vector_ctor N) = Return u (m1, v1)"
      by (simp only: small_vector_range_def)
    then have h1: "holds (brk m) N (m1, v1) xs" by (rule push_all_ctor)
    then have e1: "elements (m1, v1) = map Some xs" by (rule elements_holds)
    have "\<forall>u2 m2 v2. small_vector_range N szT xs m1 = Return u2 (m2, v2) \<longrightarrow>
         elements (m2, v1) = map Some xs \<and> op_eq m2 v1 v2 \<and> op_eq m2 v2 v1"
    proof (intro allI impI)
      fix u2 m2 v2
      assume "small_vector_range N szT xs m1 = Return u2 (m2, v2)"
      then have r2: "push_all N szT xs (m1, small_vector_ctor N) = Return u2 (m2, v2)"
        by (simp only: small_vector_range_def)
      then have "holds (brk m1) N (m2, v2) xs" by (rule push_all_ctor)
      then have e2: "elements (m2, v2) = map Some xs" by (rule elements_holds)
      from r2 have "\<forall>a<brk m1. heap m2 a = heap m1 a" by (rule push_all_ctor)
      with h1 have "elements (m2, v1) = elements (m1, v1)" by (rule elements_frame)
      with e1 e2 show "elements (m2, v1) = map Some xs \<and> op_eq m2 v1 v2 \<and> op_eq m2 v2 v1"
        by (simp add: op_eq_def)
    qed
    with e1 show "elements (m1, v1) = map Some xs \<and> op_eq m1 v1 v1 \<and>
      (\<forall>u2 m2 v2. small_vector_range N szT xs m1 = Return u2 (m2, v2) \<longrightarrow>
         elements (m2, v1) = map Some xs \<and> op_eq m2 v1 v2 \<and> op_eq m2 v2 v1)"
      by (simp add: op_eq_def)
  qed
  have c3: "False \<notin> set (script m) \<and>
    length xs + length xs div 2 \<le> (2 ^ 64 - 1) div unat szT \<longrightarrow>
      (\<exists>m1 v1. small_vector_range N szT xs m = Return () (m1, v1))"
  proof
    assume a: "False \<notin> set (script m) \<and>
      length xs + length xs div 2 \<le> (2 ^ 64 - 1) div unat szT"
    then have "length ([] @ xs) + length ([] @ xs) div 2 \<le> unat (max_size szT)"
      by (simp add: unat_max_size)
    with a push_all_total [OF ctor_holds, where m=m and szT=szT and ys=xs and N=N]
    show "\<exists>m1 v1. small_vector_range N szT xs m = Return () (m1, v1)"
      by (simp only: small_vector_range_def) blast
  qed
  show ?thesis by (rule conjI c1 c2 c3)+
qed

theorem push_back_sequence_witness:
  "\<exists>m1 v1. small_vector_range 4 4 [1, 2, 3, 4, 5 :: int] heap0 = Return () (m1, v1) \<and>
     unat (sv_size v1) = 5 \<and> elements (m1, v1) = [Some 1, Some 2, Some 3, Some 4, Some 5] \<and>
     op_eq m1 v1 v1"
proof -
  note p = push_back_sequence [of 4 4 "[1, 2, 3, 4, 5 :: int]" heap0]
  have "False \<notin> set (script (heap0 :: int machine)) \<and>
      length [1, 2, 3, 4, 5 :: int] + length [1, 2, 3, 4, 5 :: int] div 2
        \<le> (2 ^ 64 - 1) div unat (4 :: size_t)"
    by (simp add: heap0_def)
  with p obtain m1 v1 where
    r: "small_vector_range 4 4 [1, 2, 3, 4, 5 :: int] heap0 = Return () (m1, v1)"
    by blast
  then have "push_all 4 4 [1, 2, 3, 4, 5 :: int] (heap0, small_vector_ctor 4) = Return () (m1, v1)"
    by (simp only: small_vector_range_def)
  with p r have "unat (sv_size v1) = length [1, 2, 3, 4, 5 :: int]"
    "elements (m1, v1) = map Some [1, 2, 3, 4, 5]" "op_eq m1 v1 v1"
    by blast+
  with r show ?thesis by simp
qed

end
